theory Spec2Isabelle
  imports Main "HOL-Library.Multiset"
begin

section \<open>Strings\<close>

text \<open>
  A Python \<open>str\<close> is modelled as a \<open>string\<close> whose characters are its code points;
  code points above 255 are outside the model. \<open>print\<close> is assumed not to raise.
\<close>

definition isspace :: "char \<Rightarrow> bool" where
  \<comment> \<open>\<open>str.isspace\<close> on one code point below 256: TAB, LF, VT, FF, CR, FS, GS, RS, US,
      SPACE, NEL, NBSP.\<close>
  "isspace c = ((of_char c :: nat) \<in> {9, 10, 11, 12, 13, 28, 29, 30, 31, 32, 133, 160})"

definition strip :: "string \<Rightarrow> string" where
  \<comment> \<open>\<open>str.strip()\<close> with no argument.\<close>
  "strip s = rev (dropWhile isspace (rev (dropWhile isspace s)))"

fun startswith :: "string \<Rightarrow> string \<Rightarrow> bool" where
  \<comment> \<open>\<open>s.startswith(p)\<close>\<close>
  "startswith s [] = True"
| "startswith [] (p # ps) = False"
| "startswith (c # cs) (p # ps) = (c = p \<and> startswith cs ps)"

definition startswith_any :: "string \<Rightarrow> string list \<Rightarrow> bool" where
  \<comment> \<open>\<open>s.startswith((p1, p2, ...))\<close> with a tuple of prefixes.\<close>
  "startswith_any s ps = list_ex (startswith s) ps"

definition youtube_prefixes :: "string list" where
  "youtube_prefixes =
     [''https://www.youtube.com/'', ''https://youtu.be/'', ''https://youtube.com/'']"

definition digit_char :: "nat \<Rightarrow> char" where
  "digit_char d = ''0123456789'' ! d"

function str_nat :: "nat \<Rightarrow> string" where
  \<comment> \<open>\<open>str(n)\<close> for a non-negative integer.\<close>
  "str_nat n = (if n < 10 then [digit_char n] else str_nat (n div 10) @ [digit_char (n mod 10)])"
  by pat_completeness auto
termination
  by (relation "measure id") auto

declare str_nat.simps [simp del]

definition str_int :: "int \<Rightarrow> string" where
  "str_int i = (if i < 0 then CHR ''-'' # str_nat (nat (- i)) else str_nat (nat i))"

section \<open>Reading the URL list\<close>

text \<open>
  What \<open>open(file_path)\<close> and the iteration over the file give: the file is missing, or
  opening it raises another exception, or the iteration yields lines (each with its line
  terminator, when it has one) and then ends or raises.
\<close>

datatype file_state =
    Missing
  | Unreadable string
  | Readable "string list" "string option"

datatype 'a exits = SysExit int | Value 'a

definition invalid_line_warning :: "nat \<Rightarrow> string \<Rightarrow> string" where
  "invalid_line_warning line_num line =
     ''Warning: Line '' @ str_nat line_num @ '' is not a valid YouTube URL: '' @ line"

fun read_lines :: "nat \<Rightarrow> string list \<Rightarrow> string list \<times> string list \<Rightarrow> string list \<times> string list" where
  \<comment> \<open>The \<open>for line_num, line in enumerate(file, 1)\<close> loop; the state is
      \<open>(urls, printed)\<close>.\<close>
  "read_lines line_num [] st = st"
| "read_lines line_num (l # ls) (urls, out) =
     (let line = strip l in
      if line = [] \<or> startswith line ''#'' then read_lines (Suc line_num) ls (urls, out)
      else if startswith_any line youtube_prefixes
           then read_lines (Suc line_num) ls (urls @ [line], out)
           else read_lines (Suc line_num) ls (urls, out @ [invalid_line_warning line_num line]))"

definition read_urls_from_file :: "file_state \<Rightarrow> string \<Rightarrow> string list \<times> string list exits" where
  \<comment> \<open>Returns what was printed and either the URL list or the \<open>sys.exit\<close> status.\<close>
  "read_urls_from_file file file_path =
     (case file of
        Missing \<Rightarrow> ([''Error: File '' @ [CHR 0x27] @ file_path @ [CHR 0x27] @ '' not found.''], SysExit 1)
      | Unreadable e \<Rightarrow> ([''Error reading file: '' @ e], SysExit 1)
      | Readable ls err \<Rightarrow>
          (let (urls, out) = read_lines 1 ls ([], []) in
           case err of
             Some e \<Rightarrow> (out @ [''Error reading file: '' @ e], SysExit 1)
           | None \<Rightarrow> (out, Value urls)))"

section \<open>The destination directory\<close>

text \<open>
  \<open>Path(output_path).mkdir(parents=True, exist_ok=True)\<close> is the only place where the
  scripts touch the filesystem themselves. The filesystem is modelled as a table from
  paths to nodes; a path is reached only through directories, as the operating system
  resolves it, and both roots (\<open>/\<close> and the working directory) always are directories.
  Symbolic links, permissions and \<open>..\<close> are outside the model.
\<close>

datatype node = Dir | File

datatype path = PosixPath (is_absolute: bool) (parts: "string list")

type_synonym filesystem = "path \<Rightarrow> node option"

datatype os_error = FileNotFoundError | FileExistsError | NotADirectoryError

fun split_sep :: "char \<Rightarrow> string \<Rightarrow> string list" where
  "split_sep sep [] = [[]]"
| "split_sep sep (c # cs) =
     (if c = sep then [] # split_sep sep cs
      else (case split_sep sep cs of [] \<Rightarrow> [[c]] | w # ws \<Rightarrow> (c # w) # ws))"

definition Path :: "string \<Rightarrow> path" where
  \<comment> \<open>\<open>pathlib.Path(s)\<close>: empty and \<open>.\<close> components are dropped.\<close>
  "Path s = PosixPath (startswith s ''/'')
              (filter (\<lambda>c. c \<noteq> [] \<and> c \<noteq> ''.'') (split_sep CHR ''/'' s))"

definition parent :: "path \<Rightarrow> path" where
  "parent p = PosixPath (is_absolute p) (butlast (parts p))"

definition node_at :: "filesystem \<Rightarrow> path \<Rightarrow> node option" where
  "node_at fs p = (if parts p = [] then Some Dir else fs p)"

fun walk :: "filesystem \<Rightarrow> bool \<Rightarrow> string list \<Rightarrow> string list \<Rightarrow> os_error option" where
  \<comment> \<open>Resolving the components \<open>cs\<close> below the directory \<open>pre\<close>: every proper prefix has
      to be a directory.\<close>
  "walk fs a pre [] = None"
| "walk fs a pre (c # cs) =
     (case node_at fs (PosixPath a pre) of
        None \<Rightarrow> Some FileNotFoundError
      | Some File \<Rightarrow> Some NotADirectoryError
      | Some Dir \<Rightarrow> walk fs a (pre @ [c]) cs)"

definition is_dir :: "filesystem \<Rightarrow> path \<Rightarrow> bool" where
  \<comment> \<open>\<open>Path.is_dir()\<close>\<close>
  "is_dir fs p = (walk fs (is_absolute p) [] (parts p) = None \<and> node_at fs p = Some Dir)"

definition os_mkdir :: "filesystem \<Rightarrow> path \<Rightarrow> os_error + filesystem" where
  \<comment> \<open>\<open>os.mkdir(p)\<close>\<close>
  "os_mkdir fs p =
     (case walk fs (is_absolute p) [] (parts p) of
        Some e \<Rightarrow> Inl e
      | None \<Rightarrow>
          (case node_at fs p of
             Some n \<Rightarrow> Inl FileExistsError
           | None \<Rightarrow> Inr (fs(p \<mapsto> Dir))))"

function Path_mkdir :: "path \<Rightarrow> bool \<Rightarrow> bool \<Rightarrow> filesystem \<Rightarrow> os_error + filesystem" where
  \<comment> \<open>\<open>Path.mkdir(parents, exist_ok)\<close> of the standard library: \<open>os.mkdir\<close>; on
      \<open>FileNotFoundError\<close> the parents are made first when \<open>parents\<close> is set; any other
      \<open>OSError\<close> is swallowed when \<open>exist_ok\<close> is set and the path is a directory.\<close>
  "Path_mkdir p parents exist_ok fs =
     (case os_mkdir fs p of
        Inr fs' \<Rightarrow> Inr fs'
      | Inl FileNotFoundError \<Rightarrow>
          (if \<not> parents \<or> parent p = p then Inl FileNotFoundError
           else (case Path_mkdir (parent p) True True fs of
                   Inl e \<Rightarrow> Inl e
                 | Inr fs1 \<Rightarrow> Path_mkdir p False exist_ok fs1))
      | Inl e \<Rightarrow> (if \<not> exist_ok \<or> \<not> is_dir fs p then Inl e else Inr fs))"
  by pat_completeness auto
termination
  apply (relation "measure (\<lambda>(p, parents, exist_ok, fs). 2 * length (parts p) + (if parents then 1 else 0))")
  apply simp
  subgoal for p parents exist_ok fs
    by (cases p; cases "parts p" rule: rev_cases) (auto simp: parent_def)
  subgoal by simp
  done

declare Path_mkdir.simps [simp del]

section \<open>The download of one video\<close>

text \<open>
  The extraction library is an external collaborator: what its calls return or raise is
  a parameter of the model. An exception raised inside the \<open>try\<close> block is represented
  by its \<open>str(e)\<close>; only instances of \<open>Exception\<close> are modelled. The console output of
  \<open>download_video\<close> is not modelled, so \<open>worker_id\<close> and the title have no effect here;
  formatting the duration is modelled because it can raise. An exception of the
  \<open>YoutubeDL\<close> constructor counts as one of \<open>extract_info\<close>.
\<close>

datatype opt_value =
    OStr string
  | OBool bool
  | OPostprocessors "(string \<times> string) list list"

type_synonym ydl_opts = "(string \<times> opt_value) list"

datatype duration = Absent | IntSeconds int | NoneValue | FloatSeconds

datatype info = NoInfo | Info duration

record ydl =
  extract_info :: "ydl_opts \<Rightarrow> string \<Rightarrow> string + info"
  download :: "ydl_opts \<Rightarrow> string \<Rightarrow> string option"

record task_world =
  tw_fs :: filesystem
  tw_ydl :: ydl

definition path_join :: "string \<Rightarrow> string \<Rightarrow> string" where
  \<comment> \<open>\<open>os.path.join(a, b)\<close>\<close>
  "path_join a b =
     (if startswith b ''/'' then b
      else if a = [] \<or> last a = CHR ''/'' then a @ b
      else a @ ''/'' @ b)"

definition dict_update :: "('k \<times> 'v) list \<Rightarrow> ('k \<times> 'v) list \<Rightarrow> ('k \<times> 'v) list" where
  \<comment> \<open>\<open>d.update(e)\<close>: keys of \<open>e\<close> replace the same keys of \<open>d\<close>, new keys are added.\<close>
  "dict_update d e = [(k, case map_of e k of Some v' \<Rightarrow> v' | None \<Rightarrow> v). (k, v) \<leftarrow> d]
                       @ [(k, v). (k, v) \<leftarrow> e, map_of d k = None]"

definition audio_opts :: ydl_opts where
  "audio_opts =
     [(''format'', OStr ''bestaudio/best''),
      (''postprocessors'', OPostprocessors
         [[(''key'', ''FFmpegExtractAudio''), (''preferredcodec'', ''mp3''),
           (''preferredquality'', ''192'')]])]"

definition format_option :: "string \<Rightarrow> bool \<Rightarrow> string" where
  "format_option quality audio_only =
     (if audio_only then ''bestaudio/best'' else quality @ ''[ext=mp4]/best[ext=mp4]/best'')"

definition batch_ydl_opts :: "string \<Rightarrow> string \<Rightarrow> bool \<Rightarrow> ydl_opts" where
  \<comment> \<open>\<open>ydl_opts\<close> as youtube-scraper.py builds it.\<close>
  "batch_ydl_opts output_path quality audio_only =
     (let ydl_opts = [(''outtmpl'', OStr (path_join output_path ''%(title)s.%(ext)s'')),
                      (''format'', OStr (format_option quality audio_only)),
                      (''quiet'', OBool True)]
      in if audio_only then dict_update ydl_opts audio_opts else ydl_opts)"

definition simple_ydl_opts :: "string \<Rightarrow> string \<Rightarrow> bool \<Rightarrow> ydl_opts" where
  \<comment> \<open>\<open>ydl_opts\<close> as simple-youtube-scraper.py builds it.\<close>
  "simple_ydl_opts output_path quality audio_only =
     (let ydl_opts = [(''outtmpl'', OStr (path_join output_path ''%(title)s.%(ext)s'')),
                      (''format'', OStr (format_option quality audio_only))]
      in if audio_only then dict_update ydl_opts audio_opts else ydl_opts)"

definition format_duration :: "duration \<Rightarrow> string + string" where
  \<comment> \<open>\<open>f"{duration // 60}:{duration % 60:02d}"\<close> on \<open>info.get('duration', 0)\<close>\<close>
  "format_duration d =
     (case d of
        Absent \<Rightarrow> Inr ''0:00''
      | IntSeconds n \<Rightarrow>
          Inr (str_int (n div 60) @ '':'' @ (if n mod 60 < 10 then ''0'' else []) @ str_int (n mod 60))
      | NoneValue \<Rightarrow>
          Inl (''unsupported operand type(s) for //: '' @ [CHR 0x27] @ ''NoneType'' @ [CHR 0x27]
               @ '' and '' @ [CHR 0x27] @ ''int'' @ [CHR 0x27])
      | FloatSeconds \<Rightarrow>
          Inl (''Unknown format code '' @ [CHR 0x27] @ ''d'' @ [CHR 0x27]
               @ '' for object of type '' @ [CHR 0x27] @ ''float'' @ [CHR 0x27]))"

definition try_download :: "ydl \<Rightarrow> ydl_opts \<Rightarrow> string \<Rightarrow> string + unit" where
  \<comment> \<open>The body of the \<open>try\<close> block, the same in both scripts: \<open>Inl e\<close> when an exception
      with \<open>str(e) = e\<close> is raised in it.\<close>
  "try_download y opts url =
     (case extract_info y opts url of
        Inl e \<Rightarrow> Inl e
      | Inr NoInfo \<Rightarrow>
          Inl ([CHR 0x27] @ ''NoneType'' @ [CHR 0x27] @ '' object has no attribute ''
               @ [CHR 0x27] @ ''get'' @ [CHR 0x27])
      | Inr (Info d) \<Rightarrow>
          (case format_duration d of
             Inl e \<Rightarrow> Inl e
           | Inr line \<Rightarrow>
               (case download y opts url of
                  Some e \<Rightarrow> Inl e
                | None \<Rightarrow> Inr ())))"

definition download_video ::
  "task_world \<Rightarrow> string \<Rightarrow> string \<Rightarrow> string \<Rightarrow> bool \<Rightarrow> nat option
     \<Rightarrow> os_error + (string \<times> bool \<times> string option)" where
  \<comment> \<open>\<open>download_video\<close> of youtube-scraper.py. \<open>Inl\<close>: the call raises.\<close>
  "download_video w url output_path quality audio_only worker_id =
     (case Path_mkdir (Path output_path) True True (tw_fs w) of
        Inl e \<Rightarrow> Inl e
      | Inr fs' \<Rightarrow>
          (case try_download (tw_ydl w) (batch_ydl_opts output_path quality audio_only) url of
             Inr u \<Rightarrow> Inr (url, True, None)
           | Inl error_msg \<Rightarrow> Inr (url, False, Some error_msg)))"

definition simple_download_video ::
  "task_world \<Rightarrow> string \<Rightarrow> string \<Rightarrow> string \<Rightarrow> bool \<Rightarrow> os_error + bool" where
  \<comment> \<open>\<open>download_video\<close> of simple-youtube-scraper.py. \<open>Inl\<close>: the call raises.\<close>
  "simple_download_video w url output_path quality audio_only =
     (case Path_mkdir (Path output_path) True True (tw_fs w) of
        Inl e \<Rightarrow> Inl e
      | Inr fs' \<Rightarrow>
          (case try_download (tw_ydl w) (simple_ydl_opts output_path quality audio_only) url of
             Inr u \<Rightarrow> Inr True
           | Inl error_msg \<Rightarrow> Inr False))"

section \<open>The batch\<close>

text \<open>
  \<open>ThreadPoolExecutor(max_workers)\<close> raises \<open>ValueError\<close> for a bound below 1. Task \<open>i\<close>
  (counted from 0) runs in its own world \<open>world i\<close>: the filesystem it finds and what
  the library does for it. \<open>as_completed\<close> yields the futures in the order in which the
  tasks finish; this order is the parameter \<open>order\<close>, a list of task numbers.
  \<open>future.result()\<close> returns what the task returned or raises what it raised, and an
  exception leaves the loop and \<open>download_concurrently\<close>. Only the prints of the main
  thread are modelled.
\<close>

datatype py_exception = ValueError string | OSError os_error

type_synonym outcome = "string \<times> bool \<times> string option"

type_synonym result_set = "string list \<times> (string \<times> string option) list"

definition completion_order :: "nat \<Rightarrow> nat list \<Rightarrow> bool" where
  \<comment> \<open>every one of the \<open>n\<close> futures is yielded exactly once\<close>
  "completion_order n order = (distinct order \<and> set order = set [0..<n])"

definition submit_all ::
  "(nat \<Rightarrow> task_world) \<Rightarrow> string list \<Rightarrow> string \<Rightarrow> string \<Rightarrow> bool
     \<Rightarrow> (nat \<times> string \<times> (os_error + outcome)) list" where
  \<comment> \<open>The submission loop: future \<open>i\<close>, its URL, and what the task does.\<close>
  "submit_all world urls output_path quality audio_only =
     [(i, url, download_video (world i) url output_path quality audio_only (Some (i + 1))).
        (i, url) \<leftarrow> enumerate 0 urls]"

definition operation ::
  "(nat \<Rightarrow> task_world) \<Rightarrow> string list \<Rightarrow> string \<Rightarrow> string \<Rightarrow> bool \<Rightarrow> nat \<Rightarrow> string + unit" where
  \<comment> \<open>What the Download Operation does for task \<open>i\<close> of a batch: \<open>Inl e\<close> when it
      raises an exception with \<open>str(e) = e\<close>.\<close>
  "operation world urls output_path quality audio_only i =
     try_download (tw_ydl (world i)) (batch_ydl_opts output_path quality audio_only) (urls ! i)"

fun collect ::
  "(nat \<times> string \<times> (os_error + outcome)) list \<Rightarrow> nat list \<Rightarrow> result_set
     \<Rightarrow> py_exception + result_set" where
  \<comment> \<open>The \<open>for future in as_completed(future_to_url)\<close> loop; the state is
      \<open>(successful_downloads, failed_downloads)\<close>. A number that is no future is
      never yielded; the model passes over it.\<close>
  "collect futures [] acc = Inr acc"
| "collect futures (f # fs) (successful_downloads, failed_downloads) =
     (case map_of futures f of
        None \<Rightarrow> collect futures fs (successful_downloads, failed_downloads)
      | Some (u, Inl e) \<Rightarrow> Inl (OSError e)
      | Some (u, Inr (url, success, error_msg)) \<Rightarrow>
          (if success then collect futures fs (successful_downloads @ [url], failed_downloads)
           else collect futures fs (successful_downloads, failed_downloads @ [(url, error_msg)])))"

definition download_concurrently ::
  "(nat \<Rightarrow> task_world) \<Rightarrow> nat list \<Rightarrow> string list \<Rightarrow> string \<Rightarrow> string \<Rightarrow> bool \<Rightarrow> int
     \<Rightarrow> string list \<times> (py_exception + result_set)" where
  \<comment> \<open>Returns what the main thread printed and the result, \<open>Inl\<close> when the call raises.\<close>
  "download_concurrently world order urls output_path quality audio_only max_workers =
     (let out = [''Starting concurrent download of '' @ str_nat (length urls)
                   @ '' videos with '' @ str_int max_workers @ '' workers...'',
                 ''Output directory: '' @ output_path,
                 replicate 60 CHR ''-'']
      in if max_workers \<le> 0
         then (out, Inl (ValueError ''max_workers must be greater than 0''))
         else (out, collect (submit_all world urls output_path quality audio_only)
                      order ([], [])))"

section \<open>The command lines\<close>

text \<open>
  How a run ends: \<open>main\<close> returns (exit status 0), calls \<open>sys.exit(n)\<close>, or an
  exception leaves it (the interpreter prints the traceback and exits with status 1).
\<close>

datatype ending = Returned | Exited int | Uncaught py_exception

definition exit_status :: "ending \<Rightarrow> int" where
  "exit_status e = (case e of Returned \<Rightarrow> 0 | Exited n \<Rightarrow> n | Uncaught x \<Rightarrow> 1)"


record args =
  arg_url_file :: string
  arg_output :: string
  arg_quality :: string
  arg_audio_only :: bool
  arg_workers :: int
  arg_list_urls :: bool


record world =
  files :: "string \<Rightarrow> file_state"
  tasks :: "nat \<Rightarrow> task_world"
  finish_order :: "nat list"

definition workers_warning :: string where
  "workers_warning = ''Warning: Workers count should be between 1 and 20. Using 10.''"

definition clamp_workers :: "int \<Rightarrow> string list \<times> int" where
  \<comment> \<open>\<open>if args.workers < 1 or args.workers > 20: ...\<close> of \<open>main\<close>: what is printed and
      the new \<open>args.workers\<close>.\<close>
  "clamp_workers n = (if n < 1 \<or> n > 20 then ([workers_warning], 10) else ([], n))"

definition str_opt :: "string option \<Rightarrow> string" where
  "str_opt e = (case e of None \<Rightarrow> ''None'' | Some m \<Rightarrow> m)"

definition summary :: "string list \<Rightarrow> result_set \<Rightarrow> string \<Rightarrow> string list" where
  \<comment> \<open>The prints of \<open>main\<close> after the batch.\<close>
  "summary urls r output =
     (case r of (successful_downloads, failed_downloads) \<Rightarrow>
        [CHR 0x0A # replicate 60 CHR ''='',
         ''DOWNLOAD SUMMARY'',
         replicate 60 CHR ''='',
         ''Total URLs processed: '' @ str_nat (length urls),
         ''Successful downloads: '' @ str_nat (length successful_downloads),
         ''Failed downloads: '' @ str_nat (length failed_downloads)]
        @ (if failed_downloads \<noteq> []
           then [CHR 0x0A # ''Failed downloads:'']
                @ [''  - '' @ url @ '': '' @ str_opt error. (url, error) \<leftarrow> failed_downloads]
           else [])
        @ (if successful_downloads \<noteq> []
           then [CHR 0x0A # ''All successful downloads saved to: '' @ output]
           else []))"

definition main :: "world \<Rightarrow> args \<Rightarrow> string list \<times> ending" where
  \<comment> \<open>\<open>main\<close> of youtube-scraper.py after \<open>parse_args\<close>: the prints of the main thread
      and how the run ends.\<close>
  "main w a =
     (case read_urls_from_file (files w (arg_url_file a)) (arg_url_file a) of
        (out, SysExit n) \<Rightarrow> (out, Exited n)
      | (out, Value urls) \<Rightarrow>
          if urls = [] then (out @ [''No valid YouTube URLs found in the file.''], Exited 1)
          else
            let out = out @ [''Found '' @ str_nat (length urls) @ '' valid YouTube URLs'']
            in if arg_list_urls a
               then (out @ [CHR 0x0A # ''URLs to be downloaded:'']
                         @ [(if i < 10 then '' '' else []) @ str_nat i @ ''. '' @ url.
                              (i, url) \<leftarrow> enumerate 1 urls],
                     Returned)
               else
                 (case clamp_workers (arg_workers a) of (warned, max_workers) \<Rightarrow>
                    (case download_concurrently (tasks w) (finish_order w) urls (arg_output a)
                            (arg_quality a) (arg_audio_only a) max_workers of
                       (started, Inl e) \<Rightarrow> (out @ warned @ started, Uncaught e)
                     | (started, Inr r) \<Rightarrow>
                         (out @ warned @ started @ summary urls r (arg_output a),
                          if snd r \<noteq> [] then Exited 1 else Returned))))"

record simple_args =
  sarg_url :: string
  sarg_output :: string
  sarg_quality :: string
  sarg_audio_only :: bool
  sarg_list_formats :: bool

definition simple_main :: "task_world \<Rightarrow> string option \<Rightarrow> simple_args \<Rightarrow> ending" where
  \<comment> \<open>\<open>main\<close> of simple-youtube-scraper.py after \<open>parse_args\<close>: how the run ends. The
      listing of the formats is not modelled: \<open>listing\<close> is the \<open>str(e)\<close> of the exception
      raised while listing, if any.\<close>
  "simple_main w listing a =
     (if \<not> startswith_any (sarg_url a) youtube_prefixes then Exited 1
      else if sarg_list_formats a
      then (case listing of Some e \<Rightarrow> Exited 1 | None \<Rightarrow> Returned)
      else (case simple_download_video w (sarg_url a) (sarg_output a) (sarg_quality a)
                   (sarg_audio_only a) of
              Inl e \<Rightarrow> Uncaught (OSError e)
            | Inr success \<Rightarrow> if \<not> success then Exited 1 else Returned))"

section \<open>Example runs\<close>

text \<open>
  Concrete worlds for the examples below: a library that downloads every video, one that
  finds no video, a working directory in which \<open>blocked\<close> is a regular file, and runs
  built from them.
\<close>

definition fine_ydl :: ydl where
  "fine_ydl = \<lparr> extract_info = (\<lambda>opts url. Inr (Info (IntSeconds 212))),
                download = (\<lambda>opts url. None) \<rparr>"

definition unavailable_ydl :: ydl where
  "unavailable_ydl = \<lparr> extract_info = (\<lambda>opts url. Inl ''ERROR: Video unavailable''),
                       download = (\<lambda>opts url. None) \<rparr>"

definition blocked_fs :: filesystem where
  "blocked_fs = Map.empty(PosixPath False [''blocked''] \<mapsto> File)"

definition blocked_world :: "nat \<Rightarrow> task_world" where
  "blocked_world i = \<lparr> tw_fs = blocked_fs, tw_ydl = fine_ydl \<rparr>"

definition second_fails :: "nat \<Rightarrow> task_world" where
  "second_fails i = \<lparr> tw_fs = Map.empty, tw_ydl = (if i = 1 then unavailable_ydl else fine_ydl) \<rparr>"

definition blocked_run :: world where
  "blocked_run = \<lparr> files = (\<lambda>f. Readable [''https://youtu.be/A'', ''https://youtu.be/B''] None),
                   tasks = blocked_world, finish_order = [0, 1] \<rparr>"

definition blocked_args :: args where
  "blocked_args = \<lparr> arg_url_file = ''urls.txt'', arg_output = ''blocked/downloads'',
                    arg_quality = ''best'', arg_audio_only = False, arg_workers = 10,
                    arg_list_urls = False \<rparr>"

definition downloads_fs :: filesystem where
  "downloads_fs = Map.empty(PosixPath False [''downloads''] \<mapsto> Dir)"

definition second_run :: "nat \<Rightarrow> task_world" where
  "second_run i = \<lparr> tw_fs = downloads_fs, tw_ydl = fine_ydl \<rparr>"

definition three_urls_run :: world where
  "three_urls_run =
     \<lparr> files = (\<lambda>f. Readable [''https://youtu.be/A'', ''https://youtu.be/B'', ''https://youtu.be/C''] None),
       tasks = second_fails, finish_order = [2, 0, 1] \<rparr>"

definition empty_file_run :: world where
  "empty_file_run = \<lparr> files = (\<lambda>f. Readable [] None), tasks = second_fails, finish_order = [] \<rparr>"

definition comments_only_run :: world where
  "comments_only_run =
     \<lparr> files = (\<lambda>f. Readable [''# nothing to download''] None), tasks = second_fails,
       finish_order = [] \<rparr>"

definition example_args :: args where
  "example_args = \<lparr> arg_url_file = ''urls.txt'', arg_output = ''./downloads'',
                    arg_quality = ''best'', arg_audio_only = False, arg_workers = 10,
                    arg_list_urls = False \<rparr>"

definition example_simple_args :: simple_args where
  "example_simple_args = \<lparr> sarg_url = ''https://youtu.be/A'', sarg_output = ''./downloads'',
                           sarg_quality = ''best'', sarg_audio_only = False,
                           sarg_list_formats = False \<rparr>"


section \<open>The URL list reader\<close>

lemma startswith_any_nonempty:
  "startswith_any s youtube_prefixes \<Longrightarrow> s \<noteq> [] \<and> \<not> startswith s ''#''"
  by (cases s) (auto simp: startswith_any_def youtube_prefixes_def)

lemma read_lines_acc:
  "read_lines n ls (urls, out) =
     (urls @ [strip l. l \<leftarrow> ls, startswith_any (strip l) youtube_prefixes],
      out @ [invalid_line_warning k (strip l). (k, l) \<leftarrow> enumerate n ls,
               strip l \<noteq> [] \<and> \<not> startswith (strip l) ''#'' \<and>
               \<not> startswith_any (strip l) youtube_prefixes])"
proof (induction ls arbitrary: n urls out)
  case Nil
  then show ?case by simp
next
  case (Cons l ls)
  show ?case
    using startswith_any_nonempty [of "strip l"]
    by (auto simp: Let_def Cons.IH)
qed

text \<open>
  C4, as the code has it. Every line is stripped of leading and trailing whitespace
  first. Stripped lines that are empty or start with \<open>#\<close> are skipped without a
  message; the stripped lines that start with one of the three accepted prefixes are
  returned, in file order; every other stripped line is reported in a warning that
  carries its line number (counted from 1), and the read goes on. For the file of the
  specification's example (with or without line terminators) the result is the two
  YouTube URLs and one warning, for line 4, \<open>not-a-url\<close>.
\<close>

theorem read_urls_from_file_stripped:
  "read_urls_from_file (Readable ls None) file_path =
     ([invalid_line_warning k (strip l). (k, l) \<leftarrow> enumerate 1 ls,
         strip l \<noteq> [] \<and> \<not> startswith (strip l) ''#'' \<and>
         \<not> startswith_any (strip l) youtube_prefixes],
      Value [strip l. l \<leftarrow> ls, startswith_any (strip l) youtube_prefixes])
   \<and> read_urls_from_file
         (Readable [''https://www.youtube.com/watch?v=A'', ''# comment'', [], ''not-a-url'',
                    ''https://youtu.be/B''] None) file_path =
       ([''Warning: Line 4 is not a valid YouTube URL: not-a-url''],
        Value [''https://www.youtube.com/watch?v=A'', ''https://youtu.be/B''])
   \<and> read_urls_from_file
         (Readable (map (\<lambda>l. l @ [CHR 0x0A])
            [''https://www.youtube.com/watch?v=A'', ''# comment'', [], ''not-a-url'',
             ''https://youtu.be/B'']) None) file_path =
       ([''Warning: Line 4 is not a valid YouTube URL: not-a-url''],
        Value [''https://www.youtube.com/watch?v=A'', ''https://youtu.be/B''])"
proof (intro conjI)
  show "read_urls_from_file (Readable ls None) file_path =
     ([invalid_line_warning k (strip l). (k, l) \<leftarrow> enumerate 1 ls,
         strip l \<noteq> [] \<and> \<not> startswith (strip l) ''#'' \<and>
         \<not> startswith_any (strip l) youtube_prefixes],
      Value [strip l. l \<leftarrow> ls, startswith_any (strip l) youtube_prefixes])"
    by (simp add: read_urls_from_file_def read_lines_acc)
next
  show "read_urls_from_file
         (Readable [''https://www.youtube.com/watch?v=A'', ''# comment'', [], ''not-a-url'',
                    ''https://youtu.be/B''] None) file_path =
       ([''Warning: Line 4 is not a valid YouTube URL: not-a-url''],
        Value [''https://www.youtube.com/watch?v=A'', ''https://youtu.be/B''])"
    by (simp add: read_urls_from_file_def strip_def isspace_def startswith_any_def
          youtube_prefixes_def invalid_line_warning_def str_nat.simps digit_char_def)
next
  show "read_urls_from_file
         (Readable (map (\<lambda>l. l @ [CHR 0x0A])
            [''https://www.youtube.com/watch?v=A'', ''# comment'', [], ''not-a-url'',
             ''https://youtu.be/B'']) None) file_path =
       ([''Warning: Line 4 is not a valid YouTube URL: not-a-url''],
        Value [''https://www.youtube.com/watch?v=A'', ''https://youtu.be/B''])"
    by (simp add: read_urls_from_file_def strip_def isspace_def startswith_any_def
          youtube_prefixes_def invalid_line_warning_def str_nat.simps digit_char_def)
qed

text \<open>
  C4 as the specification words it speaks of the lines themselves. The line
  \<open>" https://youtu.be/B"\<close> does not start with an accepted prefix, so it would have to
  be rejected with a warning; the code returns its stripped form and prints nothing.
\<close>

theorem read_urls_from_file_padded_line:
  "\<not> startswith_any '' https://youtu.be/B'' youtube_prefixes
   \<and> read_urls_from_file (Readable ['' https://youtu.be/B''] None) ''urls.txt'' =
       ([], Value [''https://youtu.be/B''])"
  by (simp add: read_urls_from_file_def strip_def isspace_def startswith_any_def
        youtube_prefixes_def)

section \<open>Creating the destination directory\<close>

lemma walk_update:
  "length pre + length cs \<le> length ps \<Longrightarrow>
   walk (fs(PosixPath a' ps \<mapsto> n)) a pre cs = walk fs a pre cs"
proof (induction cs arbitrary: pre)
  case Nil
  then show ?case by simp
next
  case (Cons c cs)
  then have "node_at (fs(PosixPath a' ps \<mapsto> n)) (PosixPath a pre) = node_at fs (PosixPath a pre)"
    by (auto simp: node_at_def)
  moreover have "walk (fs(PosixPath a' ps \<mapsto> n)) a (pre @ [c]) cs = walk fs a (pre @ [c]) cs"
    using Cons.prems by (intro Cons.IH) simp
  ultimately show ?case by (simp only: walk.simps)
qed

lemma os_mkdir_is_dir: "os_mkdir fs p = Inr fs' \<Longrightarrow> is_dir fs' p"
  by (cases p) (auto simp: os_mkdir_def is_dir_def node_at_def walk_update split: option.splits)

lemma is_dir_os_mkdir: "is_dir fs p \<Longrightarrow> os_mkdir fs p = Inl FileExistsError"
  by (simp add: os_mkdir_def is_dir_def)

lemma Path_mkdir_existing: "is_dir fs p \<Longrightarrow> Path_mkdir p parents True fs = Inr fs"
  by (subst Path_mkdir.simps) (simp add: is_dir_os_mkdir)

lemma Path_mkdir_existing_strict:
  "is_dir fs p \<Longrightarrow> Path_mkdir p parents False fs = Inl FileExistsError"
  by (subst Path_mkdir.simps) (simp add: is_dir_os_mkdir)

lemma Path_mkdir_is_dir: "Path_mkdir p parents exist_ok fs = Inr fs' \<Longrightarrow> is_dir fs' p"
proof (induction p parents exist_ok fs arbitrary: fs' rule: Path_mkdir.induct)
  case (1 p parents exist_ok fs)
  show ?case
  proof (cases "os_mkdir fs p")
    case (Inr fs1)
    with "1.prems" have "fs' = fs1"
      by (subst (asm) Path_mkdir.simps) simp
    with Inr show ?thesis by (simp add: os_mkdir_is_dir)
  next
    case (Inl e)
    show ?thesis
    proof (cases "e = FileNotFoundError")
      case True
      with Inl "1.prems" have go: "\<not> (\<not> parents \<or> parent p = p)"
        by (subst (asm) Path_mkdir.simps) (auto split: if_splits)
      from True Inl "1.prems" go obtain fs1 where
        a: "Path_mkdir (parent p) True True fs = Inr fs1" and
        b: "Path_mkdir p False exist_ok fs1 = Inr fs'"
        by (subst (asm) Path_mkdir.simps) (auto split: sum.splits)
      from "1.IH"(2) [OF Inl True go a b] show ?thesis .
    next
      case False
      with Inl "1.prems" have "fs' = fs \<and> is_dir fs p"
        by (subst (asm) Path_mkdir.simps) (cases e; auto split: if_splits)
      then show ?thesis by simp
    qed
  qed
qed

section \<open>Facts about the batch\<close>

lemma download_video_raises:
  "Path_mkdir (Path output_path) True True (tw_fs w) = Inl e \<Longrightarrow>
   download_video w url output_path quality audio_only worker_id = Inl e"
  by (simp add: download_video_def)

lemma download_video_returns:
  "Path_mkdir (Path output_path) True True (tw_fs w) = Inr fs' \<Longrightarrow>
   download_video w url output_path quality audio_only worker_id =
     Inr (case try_download (tw_ydl w) (batch_ydl_opts output_path quality audio_only) url of
            Inr u \<Rightarrow> (url, True, None)
          | Inl error_msg \<Rightarrow> (url, False, Some error_msg))"
  by (simp add: download_video_def split: sum.splits)

lemma download_video_url:
  "download_video w url output_path quality audio_only worker_id = Inr (u, success, error_msg) \<Longrightarrow>
   u = url"
  by (auto simp: download_video_def split: sum.splits)

lemma map_of_enumerate_map:
  "map_of [(i, url, f i url). (i, url) \<leftarrow> enumerate n urls] k =
     (if n \<le> k \<and> k < n + length urls then Some (urls ! (k - n), f k (urls ! (k - n))) else None)"
proof (induction urls arbitrary: n)
  case Nil
  then show ?case by simp
next
  case (Cons u urls)
  show ?case
    by (auto simp: Cons.IH Suc_diff_le nth_Cons')
qed

lemma map_of_submit_all:
  "map_of (submit_all world urls output_path quality audio_only) i =
     (if i < length urls
      then Some (urls ! i, download_video (world i) (urls ! i) output_path quality audio_only (Some (i + 1)))
      else None)"
  unfolding submit_all_def
  using map_of_enumerate_map [of "\<lambda>i url. download_video (world i) url output_path quality audio_only (Some (i + 1))" 0 urls i]
  by simp

lemma collect_returns:
  "(\<And>i. i \<in> set order \<Longrightarrow> map_of futures i = Some (u i, Inr (url i, ok i, msg i))) \<Longrightarrow>
   collect futures order (s, f) =
     Inr (s @ [url i. i \<leftarrow> order, ok i], f @ [(url i, msg i). i \<leftarrow> order, \<not> ok i])"
proof (induction order arbitrary: s f)
  case Nil
  then show ?case by simp
next
  case (Cons i order)
  have here: "map_of futures i = Some (u i, Inr (url i, ok i, msg i))"
    by (rule Cons.prems) simp
  have rest: "\<And>s f. collect futures order (s, f) =
     Inr (s @ [url i. i \<leftarrow> order, ok i], f @ [(url i, msg i). i \<leftarrow> order, \<not> ok i])"
    by (rule Cons.IH) (simp add: Cons.prems)
  show ?case
    by (simp add: here rest)
qed

lemma collect_Inr_all:
  "collect futures order acc = Inr res \<Longrightarrow> i \<in> set order \<Longrightarrow>
   map_of futures i = Some (u, r) \<Longrightarrow> \<exists>out. r = Inr out"
proof (induction order arbitrary: acc)
  case Nil
  then show ?case by simp
next
  case (Cons j order)
  obtain s f where acc: "acc = (s, f)" by (cases acc)
  show ?case
  proof (cases "i = j")
    case True
    with Cons.prems acc show ?thesis
      by (cases r) auto
  next
    case False
    with Cons.prems have i: "i \<in> set order" by simp
    from Cons.prems(1) acc obtain acc' where "collect futures order acc' = Inr res"
      by (auto split: option.splits sum.splits if_splits)
    from Cons.IH [OF this i Cons.prems(3)] show ?thesis .
  qed
qed

lemma count_list_split:
  "count_list [f i. i \<leftarrow> xs, P i] x + count_list [g i. i \<leftarrow> xs, \<not> P i] x
     = count_list [if P i then f i else g i. i \<leftarrow> xs] x"
  by (induction xs) auto

lemma count_list_completion_order:
  assumes "completion_order (length urls) order"
  shows "count_list (map (\<lambda>i. urls ! i) order) x = count_list urls x"
proof -
  from assms have "mset order = mset [0..<length urls]"
    by (metis completion_order_def distinct_upt set_eq_iff_mset_eq_distinct)
  then have "mset (map (\<lambda>i. urls ! i) order) = mset (map (\<lambda>i. urls ! i) [0..<length urls])"
    by (metis mset_map)
  then have "mset (map (\<lambda>i. urls ! i) order) = mset urls"
    by (simp add: map_nth)
  then have "count (mset (map (\<lambda>i. urls ! i) order)) x = count (mset urls) x"
    by simp
  then show ?thesis by (simp only: count_mset)
qed

lemma download_concurrently_returns:
  assumes W: "1 \<le> W"
    and ord: "completion_order (length urls) order"
    and dirs: "\<forall>i<length urls. \<exists>fs'. Path_mkdir (Path output_path) True True (tw_fs (world i)) = Inr fs'"
  shows "snd (download_concurrently world order urls output_path quality audio_only W) =
     Inr ([urls ! i. i \<leftarrow> order, \<not> isl (operation world urls output_path quality audio_only i)],
          [(urls ! i, Some (projl (operation world urls output_path quality audio_only i))).
             i \<leftarrow> order, isl (operation world urls output_path quality audio_only i)])"
proof -
  let ?op = "operation world urls output_path quality audio_only"
  let ?msg = "\<lambda>i. case ?op i of Inl e \<Rightarrow> Some e | Inr u \<Rightarrow> None"
  have fut: "map_of (submit_all world urls output_path quality audio_only) i =
      Some (urls ! i, Inr (urls ! i, \<not> isl (?op i), ?msg i))" if "i \<in> set order" for i
  proof -
    from that ord have i: "i < length urls"
      by (simp add: completion_order_def)
    with dirs obtain fs' where
      "Path_mkdir (Path output_path) True True (tw_fs (world i)) = Inr fs'" by blast
    from download_video_returns [OF this] i show ?thesis
      by (simp add: map_of_submit_all operation_def split: sum.splits)
  qed
  have "collect (submit_all world urls output_path quality audio_only) order ([], []) =
      Inr ([] @ [urls ! i. i \<leftarrow> order, \<not> isl (?op i)],
           [] @ [(urls ! i, ?msg i). i \<leftarrow> order, \<not> \<not> isl (?op i)])"
    by (rule collect_returns) (rule fut)
  moreover have "[(urls ! i, ?msg i). i \<leftarrow> order, \<not> \<not> isl (?op i)] =
      [(urls ! i, Some (projl (?op i))). i \<leftarrow> order, isl (?op i)]"
    by (intro arg_cong [where f = concat] map_cong refl) (auto split: sum.splits)
  ultimately show ?thesis
    using W by (simp add: download_concurrently_def)
qed

lemma length_partition:
  "length [f i. i \<leftarrow> xs, \<not> P i] + length [g i. i \<leftarrow> xs, P i] = length xs"
  by (induction xs) auto

lemma download_concurrently_partition:
  assumes "1 \<le> W"
    and "completion_order (length urls) order"
    and "\<forall>i<length urls. \<exists>fs'. Path_mkdir (Path output_path) True True (tw_fs (world i)) = Inr fs'"
  shows "\<exists>successful_downloads failed_downloads.
     snd (download_concurrently world order urls output_path quality audio_only W)
       = Inr (successful_downloads, failed_downloads)
     \<and> length successful_downloads + length failed_downloads = length urls"
proof -
  from assms(2) have "length order = length urls"
    by (metis completion_order_def distinct_card distinct_upt length_upt minus_nat.diff_0)
  with download_concurrently_returns [OF assms, of quality audio_only]
    length_partition [where f = "\<lambda>i. urls ! i" and xs = order
      and P = "\<lambda>i. isl (operation world urls output_path quality audio_only i)"
      and g = "\<lambda>i. (urls ! i, Some (projl (operation world urls output_path quality audio_only i)))"]
  show ?thesis by simp
qed

subsection \<open>A failing download is one outcome among the others\<close>


text \<open>
  An instance: three URLs, the second video is unavailable, and the third task is the
  first to finish.
\<close>

lemma mkdir_downloads_empty:
  "Path_mkdir (Path ''./downloads'') True True Map.empty =
     Inr (Map.empty(PosixPath False [''downloads''] \<mapsto> Dir))"
  by (simp add: Path_mkdir.simps [of "PosixPath False [''downloads'']"] Path_def os_mkdir_def
        node_at_def)

lemma second_fails_operation:
  "operation second_fails urls output_path quality audio_only i =
     (if i = 1 then Inl ''ERROR: Video unavailable'' else Inr ())"
  by (simp add: operation_def second_fails_def try_download_def fine_ydl_def unavailable_ydl_def
        format_duration_def)


subsection \<open>A destination directory that cannot be created\<close>

text \<open>
  \<open>mkdir\<close> is called before the \<open>try\<close> block of \<open>download_video\<close>, so its exception is
  not turned into a result: it leaves \<open>download_video\<close>, is raised again by
  \<open>future.result()\<close> and leaves \<open>download_concurrently\<close> and \<open>main\<close>.
\<close>

lemma mkdir_blocked:
  "Path_mkdir (Path ''blocked/downloads'') True True blocked_fs = Inl NotADirectoryError"
  by (simp add: Path_mkdir.simps [of "PosixPath False [''blocked'', ''downloads'']"] blocked_fs_def
        Path_def os_mkdir_def node_at_def is_dir_def)

lemma download_video_blocked:
  "download_video (blocked_world i) url ''blocked/downloads'' quality audio_only worker_id
     = Inl NotADirectoryError"
  by (rule download_video_raises) (simp add: blocked_world_def mkdir_blocked)

text \<open>
  C1 asks for exactly one outcome for each of the \<open>N\<close> URLs, for every non-empty list
  and every bound of at least 1. With one URL, a bound of 1 and a destination below the
  regular file \<open>blocked\<close>, \<open>download_concurrently\<close> raises \<open>NotADirectoryError\<close> and
  returns no outcome at all. (Where every task can create the directory the two lists
  do hold \<open>N\<close> outcomes: \<open>download_concurrently_partition\<close>.)
\<close>

theorem blocked_destination_batch:
  "snd (download_concurrently blocked_world [0] [''https://youtu.be/A''] ''blocked/downloads''
          ''best'' False 1) = Inl (OSError NotADirectoryError)"
  by (simp add: download_concurrently_def map_of_submit_all download_video_blocked)

text \<open>
  C8 asks that a directory that cannot be created fails its own task only. With two URLs
  and a destination below the regular file \<open>blocked\<close>, the task raises instead of
  returning a failed outcome, and the run ends with the uncaught exception after the
  batch header: no failure is recorded and no summary is printed.
\<close>

theorem blocked_destination_run:
  "download_video (blocked_world 0) ''https://youtu.be/A'' ''blocked/downloads'' ''best'' False (Some 1)
     = Inl NotADirectoryError
   \<and> main blocked_run blocked_args =
       ([''Found 2 valid YouTube URLs'',
         ''Starting concurrent download of 2 videos with 10 workers...'',
         ''Output directory: blocked/downloads'',
         replicate 60 CHR ''-''],
        Uncaught (OSError NotADirectoryError))"
proof
  show "download_video (blocked_world 0) ''https://youtu.be/A'' ''blocked/downloads'' ''best'' False (Some 1)
     = Inl NotADirectoryError"
    by (rule download_video_blocked)
next
  have r: "read_urls_from_file (Readable [''https://youtu.be/A'', ''https://youtu.be/B''] None) ''urls.txt''
      = ([], Value [''https://youtu.be/A'', ''https://youtu.be/B''])"
    by (simp add: read_urls_from_file_def strip_def isspace_def startswith_any_def
          youtube_prefixes_def)
  have d: "download_concurrently blocked_world [0, Suc 0] [''https://youtu.be/A'', ''https://youtu.be/B'']
        ''blocked/downloads'' ''best'' False 10 =
      ([''Starting concurrent download of 2 videos with 10 workers...'',
         ''Output directory: blocked/downloads'',
         replicate 60 CHR ''-''], Inl (OSError NotADirectoryError))"
    by (simp add: download_concurrently_def map_of_submit_all download_video_blocked
          str_int_def str_nat.simps digit_char_def)
  show "main blocked_run blocked_args =
       ([''Found 2 valid YouTube URLs'',
         ''Starting concurrent download of 2 videos with 10 workers...'',
         ''Output directory: blocked/downloads'',
         replicate 60 CHR ''-''],
        Uncaught (OSError NotADirectoryError))"
    by (simp add: main_def blocked_run_def blocked_args_def r d clamp_workers_def str_nat.simps
          digit_char_def)
qed

subsection \<open>Duplicate URLs\<close>

text \<open>
  C10. The submission loop makes one future for every position of the list, each with
  its own number, so a URL that occurs \<open>k\<close> times is submitted \<open>k\<close> times. When all
  futures are collected and \<open>download_concurrently\<close> returns its two lists, the number
  of successes for a URL plus the number of failures for it is the number of its
  occurrences in the input.
\<close>

theorem duplicates_kept:
  "distinct (map fst (submit_all world urls output_path quality audio_only))
   \<and> count_list (map (fst \<circ> snd) (submit_all world urls output_path quality audio_only)) u
       = count_list urls u
   \<and> (completion_order (length urls) order
        \<and> snd (download_concurrently world order urls output_path quality audio_only W)
            = Inr (successful_downloads, failed_downloads)
      \<longrightarrow> count_list successful_downloads u + count_list (map fst failed_downloads) u
            = count_list urls u)"
proof (intro conjI impI)
  have "map fst (submit_all world urls output_path quality audio_only) = map fst (enumerate 0 urls)"
    by (simp add: submit_all_def split_def comp_def)
  then show "distinct (map fst (submit_all world urls output_path quality audio_only))"
    by simp
next
  have "map (fst \<circ> snd) (submit_all world urls output_path quality audio_only)
      = map snd (enumerate 0 urls)"
    by (simp add: submit_all_def split_def comp_def)
  then show "count_list (map (fst \<circ> snd) (submit_all world urls output_path quality audio_only)) u
       = count_list urls u"
    by simp
next
  let ?futures = "submit_all world urls output_path quality audio_only"
  let ?task = "\<lambda>i. download_video (world i) (urls ! i) output_path quality audio_only (Some (i + 1))"
  assume "completion_order (length urls) order
        \<and> snd (download_concurrently world order urls output_path quality audio_only W)
            = Inr (successful_downloads, failed_downloads)"
  then have ord: "completion_order (length urls) order"
    and res: "snd (download_concurrently world order urls output_path quality audio_only W)
            = Inr (successful_downloads, failed_downloads)"
    by simp_all
  from res have col: "collect ?futures order ([], []) = Inr (successful_downloads, failed_downloads)"
    by (simp add: download_concurrently_def Let_def split: if_splits)
  have "\<exists>ok msg. ?task i = Inr (urls ! i, ok, msg)" if "i \<in> set order" for i
  proof -
    from that ord have i: "i < length urls" by (simp add: completion_order_def)
    then have "map_of ?futures i = Some (urls ! i, ?task i)"
      by (simp add: map_of_submit_all)
    from collect_Inr_all [OF col that this] obtain out where out: "?task i = Inr out" ..
    obtain v ok msg where "out = (v, ok, msg)" by (cases out)
    with out download_video_url [of "world i" "urls ! i" output_path quality audio_only "Some (i + 1)" v ok msg]
    show ?thesis by simp
  qed
  then obtain ok msg where task: "\<And>i. i \<in> set order \<Longrightarrow> ?task i = Inr (urls ! i, ok i, msg i)"
    by metis
  have "map_of ?futures i = Some (urls ! i, Inr (urls ! i, ok i, msg i))" if "i \<in> set order" for i
  proof -
    from that ord have "i < length urls" by (simp add: completion_order_def)
    with task [OF that] show ?thesis by (simp add: map_of_submit_all)
  qed
  then have "collect ?futures order ([], []) =
      Inr ([] @ [urls ! i. i \<leftarrow> order, ok i], [] @ [(urls ! i, msg i). i \<leftarrow> order, \<not> ok i])"
    by (rule collect_returns)
  with col have s: "successful_downloads = [urls ! i. i \<leftarrow> order, ok i]"
    and f: "failed_downloads = [(urls ! i, msg i). i \<leftarrow> order, \<not> ok i]"
    by simp_all
  have "map fst failed_downloads = [urls ! i. i \<leftarrow> order, \<not> ok i]"
    unfolding f by (induction order) auto
  with s have "count_list successful_downloads u + count_list (map fst failed_downloads) u
      = count_list [if ok i then urls ! i else urls ! i. i \<leftarrow> order] u"
    by (simp only: count_list_split)
  also have "\<dots> = count_list (map (\<lambda>i. urls ! i) order) u" by simp
  also have "\<dots> = count_list urls u"
    using ord by (rule count_list_completion_order)
  finally show "count_list successful_downloads u + count_list (map fst failed_downloads) u
            = count_list urls u" .
qed

theorem duplicates_kept_witness:
  "completion_order 3 [2, 0, 1]
   \<and> snd (download_concurrently second_fails [2, 0, 1]
            [''https://youtu.be/A'', ''https://youtu.be/A'', ''https://youtu.be/B'']
            ''./downloads'' ''best'' False 3) =
       Inr ([''https://youtu.be/B'', ''https://youtu.be/A''],
            [(''https://youtu.be/A'', Some ''ERROR: Video unavailable'')])
   \<and> count_list [''https://youtu.be/B'', ''https://youtu.be/A''] ''https://youtu.be/A''
       + count_list (map fst [(''https://youtu.be/A'', Some ''ERROR: Video unavailable'')])
           ''https://youtu.be/A''
       = count_list [''https://youtu.be/A'', ''https://youtu.be/A'', ''https://youtu.be/B'']
           ''https://youtu.be/A''"
proof -
  let ?urls = "[''https://youtu.be/A'', ''https://youtu.be/A'', ''https://youtu.be/B'']"
  have ord: "completion_order (length ?urls) [2, 0, 1]"
    by (auto simp: completion_order_def)
  have dirs: "\<forall>i<length ?urls. \<exists>fs'.
      Path_mkdir (Path ''./downloads'') True True (tw_fs (second_fails i)) = Inr fs'"
    by (simp add: second_fails_def mkdir_downloads_empty)
  have res: "snd (download_concurrently second_fails [2, 0, 1] ?urls ''./downloads'' ''best'' False 3) =
       Inr ([''https://youtu.be/B'', ''https://youtu.be/A''],
            [(''https://youtu.be/A'', Some ''ERROR: Video unavailable'')])"
    using download_concurrently_returns [OF _ ord dirs, of 3 "''best''" False]
    by (simp add: second_fails_operation)
  from duplicates_kept [of second_fails ?urls "''./downloads''" "''best''" False "''https://youtu.be/A''"
      "[2, 0, 1]" 3 "[''https://youtu.be/B'', ''https://youtu.be/A'']"
      "[(''https://youtu.be/A'', Some ''ERROR: Video unavailable'')]"] ord res
  have "count_list [''https://youtu.be/B'', ''https://youtu.be/A''] ''https://youtu.be/A''
       + count_list (map fst [(''https://youtu.be/A'', Some ''ERROR: Video unavailable'')])
           ''https://youtu.be/A''
       = count_list ?urls ''https://youtu.be/A''"
    by blast
  moreover have "completion_order 3 [2, 0, 1]"
    by (auto simp: completion_order_def)
  ultimately show ?thesis using res by blast
qed

subsection \<open>Creating the directory twice\<close>

text \<open>
  C9. After \<open>mkdir(parents=True, exist_ok=True)\<close> has succeeded the destination is a
  directory. Where the destination already is a directory, \<open>mkdir\<close> succeeds again and
  leaves the filesystem as it is, so \<open>download_video\<close> of either script returns instead
  of raising; a batch in which every task finds the directory returns its result.
\<close>

theorem existing_directory_accepted:
  "(Path_mkdir (Path output_path) True True fs = Inr fs1 \<longrightarrow> is_dir fs1 (Path output_path))
   \<and> (is_dir (tw_fs w) (Path output_path) \<longrightarrow>
        Path_mkdir (Path output_path) True True (tw_fs w) = Inr (tw_fs w)
        \<and> (\<exists>r. download_video w url output_path quality audio_only worker_id = Inr r)
        \<and> (\<exists>b. simple_download_video w url output_path quality audio_only = Inr b))
   \<and> (1 \<le> W \<and> completion_order (length urls) order
        \<and> (\<forall>i<length urls. is_dir (tw_fs (world i)) (Path output_path)) \<longrightarrow>
        (\<exists>r. snd (download_concurrently world order urls output_path quality audio_only W) = Inr r))"
proof (intro conjI impI)
  assume "Path_mkdir (Path output_path) True True fs = Inr fs1"
  then show "is_dir fs1 (Path output_path)" by (rule Path_mkdir_is_dir)
next
  assume d: "is_dir (tw_fs w) (Path output_path)"
  then show m: "Path_mkdir (Path output_path) True True (tw_fs w) = Inr (tw_fs w)"
    by (rule Path_mkdir_existing)
  from download_video_returns [OF m]
  show "\<exists>r. download_video w url output_path quality audio_only worker_id = Inr r"
    by blast
  from m show "\<exists>b. simple_download_video w url output_path quality audio_only = Inr b"
    by (auto simp: simple_download_video_def split: sum.splits)
next
  assume a: "1 \<le> W \<and> completion_order (length urls) order
        \<and> (\<forall>i<length urls. is_dir (tw_fs (world i)) (Path output_path))"
  then have "\<forall>i<length urls. \<exists>fs'.
      Path_mkdir (Path output_path) True True (tw_fs (world i)) = Inr fs'"
    by (blast intro: Path_mkdir_existing)
  with a download_concurrently_returns [of W urls order output_path world quality audio_only]
  show "\<exists>r. snd (download_concurrently world order urls output_path quality audio_only W) = Inr r"
    by blast
qed

theorem existing_directory_accepted_witness:
  "Path_mkdir (Path ''./downloads'') True True Map.empty = Inr downloads_fs
   \<and> is_dir downloads_fs (Path ''./downloads'')
   \<and> Path_mkdir (Path ''./downloads'') True True downloads_fs = Inr downloads_fs
   \<and> (\<exists>r. download_video (second_run 0) ''https://youtu.be/A'' ''./downloads'' ''best'' False (Some 1) = Inr r)
   \<and> (\<exists>b. simple_download_video (second_run 0) ''https://youtu.be/A'' ''./downloads'' ''best'' False = Inr b)
   \<and> (\<exists>r. snd (download_concurrently second_run [1, 0] [''https://youtu.be/A'', ''https://youtu.be/B'']
              ''./downloads'' ''best'' False 10) = Inr r)"
proof -
  note th = existing_directory_accepted [of "''./downloads''" Map.empty downloads_fs "second_run 0"
      "''https://youtu.be/A''" "''best''" False "Some 1" 10
      "[''https://youtu.be/A'', ''https://youtu.be/B'']" "[1, 0]" second_run]
  have first: "Path_mkdir (Path ''./downloads'') True True Map.empty = Inr downloads_fs"
    by (simp add: mkdir_downloads_empty downloads_fs_def)
  with th have d: "is_dir downloads_fs (Path ''./downloads'')" by blast
  then have d': "is_dir (tw_fs (second_run 0)) (Path ''./downloads'')"
    by (simp add: second_run_def)
  have ord: "completion_order (length [''https://youtu.be/A'', ''https://youtu.be/B'']) [1, 0]"
    by (auto simp: completion_order_def)
  have all: "\<forall>i<length [''https://youtu.be/A'', ''https://youtu.be/B''].
      is_dir (tw_fs (second_run i)) (Path ''./downloads'')"
    using d by (simp add: second_run_def)
  from th d' have "Path_mkdir (Path ''./downloads'') True True (tw_fs (second_run 0)) = Inr (tw_fs (second_run 0))"
    and "\<exists>r. download_video (second_run 0) ''https://youtu.be/A'' ''./downloads'' ''best'' False (Some 1) = Inr r"
    and "\<exists>b. simple_download_video (second_run 0) ''https://youtu.be/A'' ''./downloads'' ''best'' False = Inr b"
    by blast+
  moreover from th ord all have "\<exists>r. snd (download_concurrently second_run [1, 0]
      [''https://youtu.be/A'', ''https://youtu.be/B''] ''./downloads'' ''best'' False 10) = Inr r"
    by simp
  ultimately show ?thesis using first d by (simp add: second_run_def)
qed

section \<open>The runs\<close>


lemma collect_no_futures: "collect [] order acc = Inr acc"
proof (induction order arbitrary: acc)
  case Nil
  then show ?case by simp
next
  case (Cons i order)
  obtain s f where "acc = (s, f)" by (cases acc)
  with Cons.IH show ?case by simp
qed


lemma main_batch:
  assumes "read_urls_from_file (files w (arg_url_file a)) (arg_url_file a) = (out, Value urls)"
    and "urls \<noteq> []" and "\<not> arg_list_urls a"
    and "clamp_workers (arg_workers a) = (warned, n)"
    and "download_concurrently (tasks w) (finish_order w) urls (arg_output a) (arg_quality a)
           (arg_audio_only a) n = (started, r)"
  shows "main w a =
     (out @ [''Found '' @ str_nat (length urls) @ '' valid YouTube URLs''] @ warned @ started
        @ (case r of Inl e \<Rightarrow> [] | Inr res \<Rightarrow> summary urls res (arg_output a)),
      case r of Inl e \<Rightarrow> Uncaught e
      | Inr res \<Rightarrow> if snd res \<noteq> [] then Exited 1 else Returned)"
  using assms by (cases r) (simp_all add: main_def Let_def)



text \<open>
  C5, for the runs that reach the download. When the batch script has a non-empty URL
  list, is not asked for the list only, and \<open>download_concurrently\<close> returns, the exit
  status is non-zero exactly when \<open>failed_downloads\<close> is non-empty. When the single-URL
  script accepts the URL, is not asked for the formats, and \<open>download_video\<close> returns,
  the exit status is non-zero exactly when it returned \<open>False\<close>. A batch run without any
  valid URL downloads nothing and exits with status 1.
\<close>

theorem exit_status_after_download:
  "(read_urls_from_file (files w (arg_url_file a)) (arg_url_file a) = (out, Value urls)
      \<and> urls \<noteq> [] \<and> \<not> arg_list_urls a
      \<and> snd (download_concurrently (tasks w) (finish_order w) urls (arg_output a) (arg_quality a)
               (arg_audio_only a) (snd (clamp_workers (arg_workers a))))
          = Inr (successful_downloads, failed_downloads) \<longrightarrow>
    (exit_status (snd (main w a)) \<noteq> 0) = (failed_downloads \<noteq> []))
   \<and> (startswith_any (sarg_url sa) youtube_prefixes \<and> \<not> sarg_list_formats sa
      \<and> simple_download_video tw (sarg_url sa) (sarg_output sa) (sarg_quality sa)
           (sarg_audio_only sa) = Inr success \<longrightarrow>
    (exit_status (simple_main tw listing sa) \<noteq> 0) = (\<not> success))
   \<and> (read_urls_from_file (files w (arg_url_file a)) (arg_url_file a) = (out, Value []) \<longrightarrow>
    exit_status (snd (main w a)) = 1)"
proof (intro conjI impI)
  assume "read_urls_from_file (files w (arg_url_file a)) (arg_url_file a) = (out, Value urls)
      \<and> urls \<noteq> [] \<and> \<not> arg_list_urls a
      \<and> snd (download_concurrently (tasks w) (finish_order w) urls (arg_output a) (arg_quality a)
               (arg_audio_only a) (snd (clamp_workers (arg_workers a))))
          = Inr (successful_downloads, failed_downloads)"
  then have rd: "read_urls_from_file (files w (arg_url_file a)) (arg_url_file a) = (out, Value urls)"
    and ne: "urls \<noteq> []" and nl: "\<not> arg_list_urls a"
    and res: "snd (download_concurrently (tasks w) (finish_order w) urls (arg_output a) (arg_quality a)
               (arg_audio_only a) (snd (clamp_workers (arg_workers a))))
          = Inr (successful_downloads, failed_downloads)"
    by simp_all
  obtain warned n where c: "clamp_workers (arg_workers a) = (warned, n)"
    by (cases "clamp_workers (arg_workers a)")
  with res obtain started where dc: "download_concurrently (tasks w) (finish_order w) urls
      (arg_output a) (arg_quality a) (arg_audio_only a) n
        = (started, Inr (successful_downloads, failed_downloads))"
    by (cases "download_concurrently (tasks w) (finish_order w) urls
      (arg_output a) (arg_quality a) (arg_audio_only a) n") simp
  from main_batch [OF rd ne nl c dc]
  show "(exit_status (snd (main w a)) \<noteq> 0) = (failed_downloads \<noteq> [])"
    by (simp add: exit_status_def)
next
  assume "startswith_any (sarg_url sa) youtube_prefixes \<and> \<not> sarg_list_formats sa
      \<and> simple_download_video tw (sarg_url sa) (sarg_output sa) (sarg_quality sa)
           (sarg_audio_only sa) = Inr success"
  then show "(exit_status (simple_main tw listing sa) \<noteq> 0) = (\<not> success)"
    by (simp add: simple_main_def exit_status_def)
next
  assume "read_urls_from_file (files w (arg_url_file a)) (arg_url_file a) = (out, Value [])"
  then show "exit_status (snd (main w a)) = 1"
    by (simp add: main_def exit_status_def)
qed

text \<open>
  C6, as the code has it. \<open>download_concurrently\<close> with an empty list and a bound of at
  least 1 returns two empty lists. \<open>main\<close> never calls it so: when the file gives no
  valid URL, it prints that none was found and exits with status 1.
\<close>

theorem empty_request_sequence:
  "(1 \<le> W \<longrightarrow>
      snd (download_concurrently world order [] output_path quality audio_only W) = Inr ([], []))
   \<and> (read_urls_from_file (files w (arg_url_file a)) (arg_url_file a) = (out, Value []) \<longrightarrow>
      main w a = (out @ [''No valid YouTube URLs found in the file.''], Exited 1))"
  by (simp add: download_concurrently_def submit_all_def collect_no_futures main_def)

text \<open>
  C6 as the specification words it calls the empty request sequence a success that
  reports no failure. For an empty file the run ends with \<open>sys.exit(1)\<close>.
\<close>

theorem empty_file_exits_1:
  "main empty_file_run example_args = ([''No valid YouTube URLs found in the file.''], Exited 1)
   \<and> exit_status (snd (main empty_file_run example_args)) = 1"
  by (simp add: main_def empty_file_run_def example_args_def read_urls_from_file_def
        exit_status_def)

text \<open>
  C5 as the specification words it holds for every run. For a file with nothing but a
  comment there is no URL, so no download fails, and the exit status is 1.
\<close>

theorem comments_only_exit_status:
  "read_urls_from_file (files comments_only_run ''urls.txt'') ''urls.txt'' = ([], Value [])
   \<and> exit_status (snd (main comments_only_run example_args)) = 1"
  by (simp add: main_def comments_only_run_def example_args_def read_urls_from_file_def
        strip_def isspace_def exit_status_def)

subsection \<open>Instances\<close>

text \<open>
  The run used below: three URLs, the second video is unavailable, the third task
  finishes first.
\<close>

lemma read_three_urls:
  "read_urls_from_file (files three_urls_run ''urls.txt'') ''urls.txt'' =
     ([], Value [''https://youtu.be/A'', ''https://youtu.be/B'', ''https://youtu.be/C''])"
  by (simp add: three_urls_run_def read_urls_from_file_def strip_def isspace_def
        startswith_any_def youtube_prefixes_def)

lemma batch_three_urls:
  "download_concurrently second_fails [2, 0, 1]
      [''https://youtu.be/A'', ''https://youtu.be/B'', ''https://youtu.be/C'']
      ''./downloads'' ''best'' False 10 =
     ([''Starting concurrent download of 3 videos with 10 workers...'',
       ''Output directory: ./downloads'',
       replicate 60 CHR ''-''],
      Inr ([''https://youtu.be/C'', ''https://youtu.be/A''],
           [(''https://youtu.be/B'', Some ''ERROR: Video unavailable'')]))"
proof -
  let ?urls = "[''https://youtu.be/A'', ''https://youtu.be/B'', ''https://youtu.be/C'']"
  have ord: "completion_order (length ?urls) [2, 0, 1]"
    by (auto simp: completion_order_def)
  have dirs: "\<forall>i<length ?urls. \<exists>fs'.
      Path_mkdir (Path ''./downloads'') True True (tw_fs (second_fails i)) = Inr fs'"
    by (simp add: second_fails_def mkdir_downloads_empty)
  have "snd (download_concurrently second_fails [2, 0, 1] ?urls ''./downloads'' ''best'' False 10) =
       Inr ([''https://youtu.be/C'', ''https://youtu.be/A''],
            [(''https://youtu.be/B'', Some ''ERROR: Video unavailable'')])"
    using download_concurrently_returns [OF _ ord dirs, of 10 "''best''" False]
    by (simp add: second_fails_operation)
  moreover have "fst (download_concurrently second_fails [2, 0, 1] ?urls ''./downloads'' ''best'' False 10) =
      [''Starting concurrent download of 3 videos with 10 workers...'',
       ''Output directory: ./downloads'',
       replicate 60 CHR ''-'']"
    by (simp add: download_concurrently_def str_int_def str_nat.simps digit_char_def)
  ultimately show ?thesis
    by (simp add: prod_eq_iff)
qed



lemma simple_download_second_run:
  "simple_download_video (second_run 0) ''https://youtu.be/A'' ''./downloads'' ''best'' False = Inr True"
proof -
  have "is_dir downloads_fs (Path ''./downloads'')"
    using Path_mkdir_is_dir [OF mkdir_downloads_empty] by (simp add: downloads_fs_def)
  then have "Path_mkdir (Path ''./downloads'') True True (tw_fs (second_run 0)) = Inr downloads_fs"
    by (simp add: second_run_def Path_mkdir_existing)
  then show ?thesis
    by (simp add: simple_download_video_def second_run_def try_download_def fine_ydl_def
          format_duration_def)
qed

theorem exit_status_after_download_witness:
  "snd (download_concurrently second_fails [2, 0, 1]
          [''https://youtu.be/A'', ''https://youtu.be/B'', ''https://youtu.be/C'']
          ''./downloads'' ''best'' False 10) =
     Inr ([''https://youtu.be/C'', ''https://youtu.be/A''],
          [(''https://youtu.be/B'', Some ''ERROR: Video unavailable'')])
   \<and> exit_status (snd (main three_urls_run example_args)) \<noteq> 0
   \<and> simple_download_video (second_run 0) ''https://youtu.be/A'' ''./downloads'' ''best'' False = Inr True
   \<and> exit_status (simple_main (second_run 0) None example_simple_args) = 0
   \<and> read_urls_from_file (files empty_file_run ''urls.txt'') ''urls.txt'' = ([], Value [])
   \<and> exit_status (snd (main empty_file_run example_args)) = 1"
proof -
  let ?urls = "[''https://youtu.be/A'', ''https://youtu.be/B'', ''https://youtu.be/C'']"
  have dc: "snd (download_concurrently second_fails [2, 0, 1] ?urls ''./downloads'' ''best'' False 10) =
     Inr ([''https://youtu.be/C'', ''https://youtu.be/A''],
          [(''https://youtu.be/B'', Some ''ERROR: Video unavailable'')])"
    by (simp only: batch_three_urls snd_conv)
  have e: "arg_url_file example_args = ''urls.txt''" "arg_output example_args = ''./downloads''"
    "arg_quality example_args = ''best''" "arg_audio_only example_args = False"
    "arg_list_urls example_args = False" "arg_workers example_args = 10"
    by (simp_all add: example_args_def)
  have t: "tasks three_urls_run = second_fails" "finish_order three_urls_run = [2, 0, 1]"
    by (simp_all add: three_urls_run_def)
  have c: "snd (clamp_workers 10) = 10"
    by (simp add: clamp_workers_def)
  have h1: "read_urls_from_file (files three_urls_run (arg_url_file example_args))
        (arg_url_file example_args) = ([], Value ?urls)
      \<and> ?urls \<noteq> [] \<and> \<not> arg_list_urls example_args
      \<and> snd (download_concurrently (tasks three_urls_run) (finish_order three_urls_run) ?urls
               (arg_output example_args) (arg_quality example_args)
               (arg_audio_only example_args) (snd (clamp_workers (arg_workers example_args))))
          = Inr ([''https://youtu.be/C'', ''https://youtu.be/A''],
                 [(''https://youtu.be/B'', Some ''ERROR: Video unavailable'')])"
    unfolding e t c by (intro conjI read_three_urls dc) simp_all
  have h2: "startswith_any (sarg_url example_simple_args) youtube_prefixes
      \<and> \<not> sarg_list_formats example_simple_args
      \<and> simple_download_video (second_run 0) (sarg_url example_simple_args)
           (sarg_output example_simple_args) (sarg_quality example_simple_args)
           (sarg_audio_only example_simple_args) = Inr True"
    using simple_download_second_run
    by (simp add: example_simple_args_def startswith_any_def youtube_prefixes_def)
  have rd3: "read_urls_from_file (files empty_file_run ''urls.txt'') ''urls.txt'' = ([], Value [])"
    by (simp add: empty_file_run_def read_urls_from_file_def)
  then have h3: "read_urls_from_file (files empty_file_run (arg_url_file example_args))
      (arg_url_file example_args) = ([], Value [])"
    by (simp add: example_args_def)
  note th = exit_status_after_download [of three_urls_run example_args "[]" ?urls
      "[''https://youtu.be/C'', ''https://youtu.be/A'']"
      "[(''https://youtu.be/B'', Some ''ERROR: Video unavailable'')]"
      example_simple_args "second_run 0" True None]
  note th3 = exit_status_after_download [of empty_file_run example_args "[]" "[]" "[]" "[]"
      example_simple_args "second_run 0" True None]
  from th h1 have c1: "exit_status (snd (main three_urls_run example_args)) \<noteq> 0"
    by simp
  from th h2 have c2: "exit_status (simple_main (second_run 0) None example_simple_args) = 0"
    by simp
  from th3 h3 have c3: "exit_status (snd (main empty_file_run example_args)) = 1"
    by simp
  from dc c1 simple_download_second_run c2 rd3 c3 show ?thesis by blast
qed

theorem empty_request_sequence_witness:
  "(1::int) \<le> 10
   \<and> snd (download_concurrently second_fails [] [] ''./downloads'' ''best'' False 10) = Inr ([], [])
   \<and> read_urls_from_file (files comments_only_run ''urls.txt'') ''urls.txt'' = ([], Value [])
   \<and> main comments_only_run example_args =
       ([''No valid YouTube URLs found in the file.''], Exited 1)"
proof -
  have rd: "read_urls_from_file (files comments_only_run ''urls.txt'') ''urls.txt'' = ([], Value [])"
    by (simp add: comments_only_run_def read_urls_from_file_def strip_def isspace_def)
  then have h: "read_urls_from_file (files comments_only_run (arg_url_file example_args))
      (arg_url_file example_args) = ([], Value [])"
    by (simp add: example_args_def)
  note th = empty_request_sequence [of 10 second_fails "[]" "''./downloads''" "''best''" False
      comments_only_run example_args "[]"]
  from th have a: "snd (download_concurrently second_fails [] [] ''./downloads'' ''best'' False 10)
      = Inr ([], [])"
    by simp
  from th h have b: "main comments_only_run example_args =
       ([''No valid YouTube URLs found in the file.''], Exited 1)"
    by simp
  from a b rd show ?thesis by simp
qed

end
